theory Spec2Isabelle
  imports Complex_Main
begin

section \<open>The table read from network_data.csv\<close>

text \<open>
  The program (app.py) reads a CSV file into a pandas DataFrame and uses four columns of it.
  A row of the frame is a record of the four cells. A cell of the Protocol or Packet Size
  column may be missing (pandas reads an empty field as the missing marker): the two column
  operations the program applies to them, \<open>value_counts()\<close> and \<open>mean()\<close>, treat a missing
  cell differently from a value (both skip it), so these cells are options.

  The address columns only go through \<open>list(...)\<close> and \<open>Counter\<close>, which count whatever
  object a cell yields as a key of a dict. A cell with text yields its string. A missing
  cell yields a float nan object, and nan equals no object but itself: two missing cells
  are one key when they yield the same object, and two keys otherwise. So a missing
  address cell carries the identity of the object it yields. (pandas puts one and the same
  nan object into every missing cell of a column that holds text, and yields a new object
  for each cell of a column that holds no text at all; the statements below are about
  every table, whatever the identities.)

  Packet sizes are rationals and the mean is computed exactly: the rounding of the 64-bit
  floating-point arithmetic is not modelled. The one value of it that the program can
  return and that is no number, the NaN of an empty mean, is a constructor of its own.
\<close>

datatype cell = Address string | Missing nat

record row =
  Protocol :: "string option"
  Source_IP :: cell
  Destination_IP :: cell
  Packet_Size :: "rat option"

type_synonym table = "row list"

text \<open>The address of a cell, when it has one.\<close>

fun address_of :: "cell \<Rightarrow> string option" where
  "address_of (Address s) = Some s"
| "address_of (Missing i) = None"

datatype pyfloat = Num rat | NaN

section \<open>The library operations the aggregator calls\<close>

text \<open>The values of a column that are not missing, in row order.\<close>

fun dropna :: "'a option list \<Rightarrow> 'a list" where
  "dropna [] = []"
| "dropna (None # xs) = dropna xs"
| "dropna (Some v # xs) = v # dropna xs"

text \<open>
  \<open>Series.value_counts().to_dict()\<close>: each value that occurs in the column, with the
  number of its occurrences; \<open>dropna=True\<close> is the default, so missing cells are not
  counted. The order of the resulting dictionary is not modelled (a map has none).
\<close>

definition value_counts :: "'a option list \<Rightarrow> ('a \<rightharpoonup> nat)" where
  "value_counts col =
     (\<lambda>k. if k \<in> set (dropna col) then Some (count_list (dropna col) k) else None)"

text \<open>\<open>sum(d.values())\<close> of a dictionary of counts.\<close>

definition sum_values :: "('k \<rightharpoonup> nat) \<Rightarrow> nat" where
  "sum_values d = (\<Sum>k\<in>dom d. the (d k))"

text \<open>
  A Python dict that keeps insertion order, as an association list: \<open>d[k] = v\<close> replaces
  the value of a key in place and appends a new key at the end; \<open>d.get(k, dflt)\<close>.
\<close>

fun dict_set :: "('k \<times> 'v) list \<Rightarrow> 'k \<Rightarrow> 'v \<Rightarrow> ('k \<times> 'v) list" where
  "dict_set [] k v = [(k, v)]"
| "dict_set ((k', v') # d) k v =
     (if k' = k then (k', v) # d else (k', v') # dict_set d k v)"

definition dict_get :: "('k \<times> 'v) list \<Rightarrow> 'k \<Rightarrow> 'v \<Rightarrow> 'v" where
  "dict_get d k dflt = (case map_of d k of None \<Rightarrow> dflt | Some v \<Rightarrow> v)"

text \<open>
  \<open>Counter(iterable)\<close>: starting from the empty dict, for each element in turn
  \<open>self[elem] = self.get(elem, 0) + 1\<close>.
\<close>

definition count_step :: "('k \<times> nat) list \<Rightarrow> 'k \<Rightarrow> ('k \<times> nat) list" where
  "count_step d elem = dict_set d elem (dict_get d elem 0 + 1)"

definition Counter :: "'k list \<Rightarrow> ('k \<times> nat) list" where
  "Counter xs = foldl count_step [] xs"

text \<open>
  \<open>Counter.most_common(n)\<close> is \<open>heapq.nlargest(n, self.items(), key=count)\<close>, which is
  \<open>sorted(items, key=count, reverse=True)[:n]\<close>: a stable sort by descending count, and
  its first \<open>n\<close> entries. \<open>sort_key\<close> is a stable insertion sort; descending order is
  ascending order of the negated count.
\<close>

definition most_common :: "nat \<Rightarrow> ('k \<times> nat) list \<Rightarrow> ('k \<times> nat) list" where
  "most_common n c = take n (sort_key (\<lambda>p. - int (snd p)) c)"

text \<open>\<open>dict(pairs)\<close>: the pairs stored one after the other into an empty dict.\<close>

definition dict :: "('k \<times> 'v) list \<Rightarrow> ('k \<times> 'v) list" where
  "dict ps = foldl (\<lambda>d p. dict_set d (fst p) (snd p)) [] ps"

text \<open>
  \<open>Series.mean()\<close>: the mean of the values that are not missing (\<open>skipna=True\<close> is the
  default), and NaN when there is none.
\<close>

definition mean :: "rat option list \<Rightarrow> pyfloat" where
  "mean col =
     (let vs = dropna col
      in if vs = [] then NaN else Num (sum_list vs / of_nat (length vs)))"

section \<open>compute_stats\<close>

record stats =
  protocol_counts :: "string \<rightharpoonup> nat"
  top_ips :: "(cell \<times> nat) list"
  total_packets :: nat
  avg_packet_size :: pyfloat

text \<open>The combined sequence: the Source IP column followed by the Destination IP column.\<close>

definition all_ips :: "table \<Rightarrow> cell list" where
  "all_ips df = map Source_IP df @ map Destination_IP df"

definition compute_stats :: "table option \<Rightarrow> stats option" where
  "compute_stats df_opt =
     (case df_opt of
        None \<Rightarrow> None
      | Some df \<Rightarrow>
          let ip_counter = Counter (all_ips df)
          in Some \<lparr> protocol_counts = value_counts (map Protocol df),
                    top_ips = dict (most_common 3 ip_counter),
                    total_packets = length df,
                    avg_packet_size = mean (map Packet_Size df) \<rparr>)"

section \<open>The loader, the chart functions and the two request handlers\<close>

text \<open>
  What \<open>pd.read_csv('network_data.csv')\<close> does at the time of the call: it returns a
  frame, raises FileNotFoundError (there is no such file), or raises another exception
  (the file is there and cannot be parsed), whose text is kept.
\<close>

datatype read_csv = Frame table | FileNotFoundError | Exception string

text \<open>
  The effects of the program outside its return values: the lines printed to standard
  output, and the figures saved by the chart functions.
\<close>

datatype chart = Bar_chart "string \<rightharpoonup> nat" | Pie_chart "(cell \<times> nat) list"

record world =
  stdout :: "string list"
  saved_figures :: "chart list"

definition print :: "string \<Rightarrow> world \<Rightarrow> world" where
  "print line w = w\<lparr>stdout := stdout w @ [line]\<rparr>"

definition load_network_data :: "read_csv \<Rightarrow> world \<Rightarrow> table option \<times> world" where
  "load_network_data file w =
     (case file of
        Frame df \<Rightarrow> (Some df, w)
      | FileNotFoundError \<Rightarrow> (None, print ''Error: network_data.csv file not found!'' w)
      | Exception e \<Rightarrow> (None, print (''Error loading CSV: '' @ e) w))"

text \<open>
  The chart functions draw a figure from their argument, save it and return the saved
  image as text; the image is represented by the data it was drawn from.
\<close>

definition create_protocol_chart :: "(string \<rightharpoonup> nat) \<Rightarrow> world \<Rightarrow> chart \<times> world" where
  "create_protocol_chart counts w =
     (Bar_chart counts, w\<lparr>saved_figures := saved_figures w @ [Bar_chart counts]\<rparr>)"

definition create_ip_chart :: "(cell \<times> nat) list \<Rightarrow> world \<Rightarrow> chart \<times> world" where
  "create_ip_chart counts w =
     (Pie_chart counts, w\<lparr>saved_figures := saved_figures w @ [Pie_chart counts]\<rparr>)"

text \<open>
  The response of a handler: one of the two templates with its arguments, a JSON body,
  or the TypeError of subscripting None (\<open>stats['protocol_counts']\<close> with no stats).
\<close>

datatype response =
    Render_error_html string
  | Render_dashboard_html stats chart chart
  | Jsonify_error string
  | Jsonify "stats option"
  | TypeError

definition dashboard :: "read_csv \<Rightarrow> world \<Rightarrow> response \<times> world" where
  "dashboard file w =
     (case load_network_data file w of
        (None, w1) \<Rightarrow>
          (Render_error_html
             ''Could not load network_data.csv file. Please make sure it exists in the project directory.'',
           w1)
      | (Some df, w1) \<Rightarrow>
          (case compute_stats (Some df) of
             None \<Rightarrow> (TypeError, w1)
           | Some st \<Rightarrow>
               (case create_protocol_chart (protocol_counts st) w1 of
                  (protocol_chart, w2) \<Rightarrow>
                    (case create_ip_chart (top_ips st) w2 of
                       (ip_chart, w3) \<Rightarrow>
                         (Render_dashboard_html st protocol_chart ip_chart, w3)))))"

definition api_stats :: "read_csv \<Rightarrow> world \<Rightarrow> response \<times> world" where
  "api_stats file w =
     (case load_network_data file w of
        (None, w1) \<Rightarrow> (Jsonify_error ''Could not load data'', w1)
      | (Some df, w1) \<Rightarrow> (Jsonify (compute_stats (Some df)), w1))"

section \<open>Inputs used in the examples\<close>

definition two_rows :: table where
  "two_rows =
     [\<lparr>Protocol = Some ''TCP'', Source_IP = Address ''1.1.1.1'', Destination_IP = Address ''2.2.2.2'',
       Packet_Size = Some 100\<rparr>,
      \<lparr>Protocol = Some ''UDP'', Source_IP = Address ''1.1.1.1'', Destination_IP = Address ''3.3.3.3'',
       Packet_Size = Some 200\<rparr>]"

definition no_protocol_row :: table where
  "no_protocol_row =
     [\<lparr>Protocol = None, Source_IP = Address ''1.1.1.1'', Destination_IP = Address ''2.2.2.2'',
       Packet_Size = Some 100\<rparr>]"

definition self_talk :: table where
  "self_talk =
     [\<lparr>Protocol = Some ''TCP'', Source_IP = Address ''9.9.9.9'', Destination_IP = Address ''9.9.9.9'',
       Packet_Size = Some 64\<rparr>]"

text \<open>
  A file whose address columns hold text and three empty fields; the three missing cells
  yield one nan object.
\<close>

definition missing_addresses :: table where
  "missing_addresses =
     [\<lparr>Protocol = Some ''TCP'', Source_IP = Missing 0, Destination_IP = Address ''b'',
       Packet_Size = Some 100\<rparr>,
      \<lparr>Protocol = Some ''TCP'', Source_IP = Missing 0, Destination_IP = Address ''b'',
       Packet_Size = Some 100\<rparr>,
      \<lparr>Protocol = Some ''TCP'', Source_IP = Address ''c'', Destination_IP = Missing 0,
       Packet_Size = Some 100\<rparr>]"

definition quiet :: world where
  "quiet = \<lparr>stdout = [], saved_figures = []\<rparr>"

text \<open>
  The order of first encounter in a sequence: \<open>a\<close> is encountered before \<open>b\<close> when it
  occurs in front of the first occurrence of \<open>b\<close> (anywhere, when \<open>b\<close> does not occur).
  In a list without repetition this says that \<open>a\<close> stands in front of \<open>b\<close>.
\<close>

definition encountered_before :: "'a list \<Rightarrow> 'a \<Rightarrow> 'a \<Rightarrow> bool" where
  "encountered_before xs a b \<longleftrightarrow> a \<in> set (takeWhile (\<lambda>x. x \<noteq> b) xs)"

section \<open>The insertion-ordered dict\<close>

lemma keys_dict_set_old: "k \<in> fst ` set d \<Longrightarrow> map fst (dict_set d k v) = map fst d"
  by (induction d) force+

lemma keys_dict_set_new: "k \<notin> fst ` set d \<Longrightarrow> map fst (dict_set d k v) = map fst d @ [k]"
  by (induction d) auto

lemma keys_dict_set:
  "map fst (dict_set d k v) = (if k \<in> fst ` set d then map fst d else map fst d @ [k])"
  by (simp add: keys_dict_set_old keys_dict_set_new)

lemma set_keys_dict_set: "fst ` set (dict_set d k v) = insert k (fst ` set d)"
proof -
  have "set (map fst (dict_set d k v)) = insert k (set (map fst d))"
    unfolding keys_dict_set by auto
  then show ?thesis by simp
qed

lemma map_of_dict_set: "map_of (dict_set d k v) = (map_of d)(k \<mapsto> v)"
  by (induction d) (auto simp: fun_eq_iff)

lemma dict_set_new: "k \<notin> fst ` set d \<Longrightarrow> dict_set d k v = d @ [(k, v)]"
  by (induction d) auto

lemma distinct_dict_set: "distinct (map fst d) \<Longrightarrow> distinct (map fst (dict_set d k v))"
  by (simp add: keys_dict_set)

text \<open>Storing pairs with different keys into an empty dict gives the pairs back, in order.\<close>

lemma dict_foldl:
  "distinct (map fst (d @ ps)) \<Longrightarrow>
   foldl (\<lambda>d p. dict_set d (fst p) (snd p)) d ps = d @ ps"
proof (induction ps arbitrary: d)
  case Nil
  then show ?case by simp
next
  case (Cons p ps)
  have new: "fst p \<notin> fst ` set d"
    using Cons.prems by auto
  have "dict_set d (fst p) (snd p) = d @ [p]"
    using dict_set_new [OF new, of "snd p"] by simp
  moreover have "distinct (map fst ((d @ [p]) @ ps))"
    using Cons.prems by simp
  ultimately show ?case
    using Cons.IH [of "d @ [p]"] by simp
qed

lemma dict_distinct: "distinct (map fst ps) \<Longrightarrow> dict ps = ps"
  using dict_foldl [of "[]" ps] by (simp add: dict_def)

section \<open>Counter: keys, counts and order of the keys\<close>

lemma dict_get_count_step:
  "dict_get (count_step d x) k 0 = dict_get d k 0 + (if x = k then 1 else 0)"
  by (simp add: count_step_def dict_get_def map_of_dict_set)

lemma dict_get_foldl:
  "dict_get (foldl count_step d xs) k 0 = dict_get d k 0 + count_list xs k"
  by (induction xs arbitrary: d) (auto simp: dict_get_count_step)

lemma keys_foldl:
  "fst ` set (foldl count_step d xs) = fst ` set d \<union> set xs"
  by (induction xs arbitrary: d) (simp_all add: count_step_def set_keys_dict_set)

lemma distinct_foldl:
  "distinct (map fst d) \<Longrightarrow> distinct (map fst (foldl count_step d xs))"
  by (induction xs arbitrary: d) (auto simp: count_step_def distinct_dict_set)

lemma keys_Counter: "fst ` set (Counter xs) = set xs"
  using keys_foldl [of "[]" xs] by (simp add: Counter_def)

lemma distinct_Counter: "distinct (map fst (Counter xs))"
  by (simp add: Counter_def distinct_foldl)

lemma dict_get_Counter: "dict_get (Counter xs) k 0 = count_list xs k"
  using dict_get_foldl [of "[]" xs k] by (simp add: Counter_def dict_get_def)

lemma in_Counter_iff:
  "(k, c) \<in> set (Counter xs) \<longleftrightarrow> k \<in> set xs \<and> c = count_list xs k"
proof -
  have "(k, c) \<in> set (Counter xs) \<longleftrightarrow> map_of (Counter xs) k = Some c"
    using distinct_Counter [of xs] by simp
  moreover have "map_of (Counter xs) k = None \<longleftrightarrow> k \<notin> set xs"
    using keys_Counter [of xs] by (simp add: map_of_eq_None_iff)
  moreover have "dict_get (Counter xs) k 0 = count_list xs k"
    by (rule dict_get_Counter)
  ultimately show ?thesis
    by (cases "map_of (Counter xs) k") (auto simp: dict_get_def)
qed

lemma length_Counter: "length (Counter xs) = card (set xs)"
proof -
  have "card (set xs) = card (set (map fst (Counter xs)))"
    by (simp add: keys_Counter)
  also have "\<dots> = length (map fst (Counter xs))"
    by (rule distinct_card) (rule distinct_Counter)
  finally show ?thesis by simp
qed

text \<open>
  The keys in front of a key \<open>b\<close>: storing a value leaves them as they are once \<open>b\<close> is
  in the dict, since a new key goes to the end.
\<close>

lemma before_dict_set_present:
  "b \<in> fst ` set d \<Longrightarrow>
   fst ` set (takeWhile (\<lambda>p. fst p \<noteq> b) (dict_set d k v)) =
   fst ` set (takeWhile (\<lambda>p. fst p \<noteq> b) d)"
proof (induction d)
  case Nil
  then show ?case by simp
next
  case (Cons p d)
  obtain k' v' where p: "p = (k', v')"
    by (cases p)
  show ?case
  proof (cases "k' = b")
    case True
    then show ?thesis by (simp add: p)
  next
    case False
    then have "b \<in> fst ` set d"
      using Cons.prems p by auto
    then have IH: "fst ` set (takeWhile (\<lambda>p. fst p \<noteq> b) (dict_set d k v)) =
        fst ` set (takeWhile (\<lambda>p. fst p \<noteq> b) d)"
      by (rule Cons.IH)
    have old: "takeWhile (\<lambda>p. fst p \<noteq> b) (p # d) = (k', v') # takeWhile (\<lambda>p. fst p \<noteq> b) d"
      using False by (simp add: p)
    show ?thesis
    proof (cases "k' = k")
      case True
      have "takeWhile (\<lambda>p. fst p \<noteq> b) (dict_set (p # d) k v) =
          (k', v) # takeWhile (\<lambda>p. fst p \<noteq> b) d"
        using True False by (simp add: p)
      with old show ?thesis by simp
    next
      case other: False
      have "takeWhile (\<lambda>p. fst p \<noteq> b) (dict_set (p # d) k v) =
          (k', v') # takeWhile (\<lambda>p. fst p \<noteq> b) (dict_set d k v)"
        using other False by (simp add: p)
      with old IH show ?thesis by simp
    qed
  qed
qed

lemma before_absent:
  "b \<notin> fst ` set d \<Longrightarrow> takeWhile (\<lambda>p. fst p \<noteq> b) d = d"
  by (induction d) auto

lemma before_dict_set_self:
  "b \<notin> fst ` set d \<Longrightarrow> takeWhile (\<lambda>p. fst p \<noteq> b) (dict_set d b v) = d"
  by (induction d) auto

lemma before_foldl:
  "fst ` set (takeWhile (\<lambda>p. fst p \<noteq> b) (foldl count_step d xs)) =
     (if b \<in> fst ` set d then fst ` set (takeWhile (\<lambda>p. fst p \<noteq> b) d)
      else fst ` set d \<union> set (takeWhile (\<lambda>x. x \<noteq> b) xs))"
proof (induction xs arbitrary: d)
  case Nil
  then show ?case by (simp add: before_absent)
next
  case (Cons x xs)
  show ?case
  proof (cases "b \<in> fst ` set d")
    case True
    then have "b \<in> fst ` set (count_step d x)"
      by (simp add: count_step_def set_keys_dict_set)
    with True show ?thesis
      using Cons.IH [of "count_step d x"]
      by (simp add: count_step_def before_dict_set_present)
  next
    case False
    show ?thesis
    proof (cases "x = b")
      case True
      have "b \<in> fst ` set (count_step d x)"
        using True by (simp add: count_step_def set_keys_dict_set)
      then show ?thesis
        using Cons.IH [of "count_step d x"] False True
        by (simp add: count_step_def before_dict_set_self)
    next
      case neq: False
      have "b \<notin> fst ` set (count_step d x)"
        using False neq by (simp add: count_step_def set_keys_dict_set)
      then show ?thesis
        using Cons.IH [of "count_step d x"] False neq
        by (auto simp add: count_step_def set_keys_dict_set)
    qed
  qed
qed

text \<open>The keys of a Counter stand in the order in which they are first encountered.\<close>

lemma before_Counter:
  "fst ` set (takeWhile (\<lambda>p. fst p \<noteq> b) (Counter xs)) = set (takeWhile (\<lambda>x. x \<noteq> b) xs)"
  using before_foldl [of b "[]" xs] by (simp add: Counter_def)

section \<open>most_common: a stable selection\<close>

lemma most_common_subset: "set (most_common n c) \<subseteq> set c"
proof -
  have "set (most_common n c) \<subseteq> set (sort_key (\<lambda>p. - int (snd p)) c)"
    unfolding most_common_def by (rule set_take_subset)
  then show ?thesis by simp
qed

lemma length_most_common: "length (most_common n c) = min n (length c)"
  by (simp add: most_common_def min.commute)

lemma distinct_keys_sort:
  "distinct (map fst ps) \<Longrightarrow> distinct (map fst (sort_key f ps))"
  by (simp add: distinct_map)

lemma distinct_keys_most_common:
  "distinct (map fst c) \<Longrightarrow> distinct (map fst (most_common n c))"
  unfolding most_common_def take_map [symmetric]
  by (rule distinct_take) (rule distinct_keys_sort)

lemma most_common_counts:
  "map snd (most_common n (Counter xs)) =
   map (count_list xs) (map fst (most_common n (Counter xs)))"
proof -
  have "\<forall>p\<in>set (most_common n (Counter xs)). snd p = count_list xs (fst p)"
  proof
    fix p assume "p \<in> set (most_common n (Counter xs))"
    then have "(fst p, snd p) \<in> set (Counter xs)"
      using most_common_subset [of n "Counter xs"] by auto
    then show "snd p = count_list xs (fst p)"
      unfolding in_Counter_iff by simp
  qed
  then show ?thesis by simp
qed

lemma most_common_descending: "sorted_wrt (\<ge>) (map snd (most_common n c))"
proof -
  have "sorted (map (\<lambda>p. - int (snd p)) (sort_key (\<lambda>p. - int (snd p)) c))"
    by (rule sorted_sort_key)
  then have "sorted (take n (map (\<lambda>p. - int (snd p)) (sort_key (\<lambda>p. - int (snd p)) c)))"
    by (rule sorted_wrt_take)
  then show ?thesis
    by (simp add: most_common_def take_map sorted_wrt_map)
qed

text \<open>
  Among the entries with one sort key, the sort keeps the order they had. So an entry
  in front of the entry of \<open>b\<close>, with the key of \<open>b\<close>, is still in front of it after the
  sort, and after the cut when the entry of \<open>b\<close> survives it.
\<close>

lemma takeWhile_filter_commute:
  "\<forall>p\<in>set ps. fst p = b \<longrightarrow> P p \<Longrightarrow>
   takeWhile (\<lambda>p. fst p \<noteq> b) (filter P ps) = filter P (takeWhile (\<lambda>p. fst p \<noteq> b) ps)"
  by (induction ps) auto

lemma sort_key_keeps_tie_order:
  assumes dist: "distinct (map fst ps)"
    and b: "(b, cb) \<in> set ps"
    and tie: "f (a, ca) = f (b, cb)"
    and before: "(a, ca) \<in> set (takeWhile (\<lambda>p. fst p \<noteq> b) ps)"
  shows "(a, ca) \<in> set (takeWhile (\<lambda>p. fst p \<noteq> b) (sort_key f ps))"
proof -
  let ?P = "\<lambda>p. f p = f (b, cb)"
  let ?B = "\<lambda>p. fst p \<noteq> b"
  have only: "\<forall>p\<in>set ps. fst p = b \<longrightarrow> ?P p"
  proof (intro ballI impI)
    fix p assume "p \<in> set ps" "fst p = b"
    then have "p = (b, cb)"
      using dist b by (metis eq_key_imp_eq_value prod.collapse)
    then show "?P p" by simp
  qed
  then have only': "\<forall>p\<in>set (sort_key f ps). fst p = b \<longrightarrow> ?P p"
    by simp
  have "(a, ca) \<in> set (filter ?P (takeWhile ?B ps))"
    using before tie by simp
  also have "filter ?P (takeWhile ?B ps) = takeWhile ?B (filter ?P ps)"
    using takeWhile_filter_commute [OF only] by simp
  also have "filter ?P ps = filter ?P (sort_key f ps)"
    by (simp add: sort_key_stable)
  also have "takeWhile ?B (filter ?P (sort_key f ps)) = filter ?P (takeWhile ?B (sort_key f ps))"
    using takeWhile_filter_commute [OF only'] by simp
  finally show ?thesis by simp
qed

lemma takeWhile_take_key:
  "b \<in> fst ` set (take n ps) \<Longrightarrow>
   takeWhile (\<lambda>p. fst p \<noteq> b) (take n ps) = takeWhile (\<lambda>p. fst p \<noteq> b) ps"
proof (induction ps arbitrary: n)
  case Nil
  then show ?case by simp
next
  case (Cons p ps)
  then show ?case by (cases n) auto
qed

lemma most_common_keeps_tie_order:
  assumes b: "b \<in> fst ` set (most_common n (Counter xs))"
    and tie: "count_list xs a = count_list xs b"
    and before: "encountered_before xs a b"
  shows "encountered_before (map fst (most_common n (Counter xs))) a b"
proof -
  let ?c = "Counter xs"
  let ?f = "\<lambda>p::'a \<times> nat. - int (snd p)"
  let ?B = "\<lambda>p::'a \<times> nat. fst p \<noteq> b"
  have "set (most_common n ?c) \<subseteq> set ?c"
    by (rule most_common_subset)
  then have "b \<in> fst ` set ?c"
    using b by auto
  then have b_in: "(b, count_list xs b) \<in> set ?c"
    by (auto simp: in_Counter_iff)
  have "a \<in> fst ` set (takeWhile ?B ?c)"
    using before by (simp add: before_Counter encountered_before_def)
  then obtain ca where ca: "(a, ca) \<in> set (takeWhile ?B ?c)"
    by auto
  then have "(a, ca) \<in> set ?c"
    by (rule set_takeWhileD [THEN conjunct1])
  then have ca_eq: "ca = count_list xs a"
    by (simp add: in_Counter_iff)
  have "(a, ca) \<in> set (takeWhile ?B (sort_key ?f ?c))"
    by (rule sort_key_keeps_tie_order [OF distinct_Counter b_in _ ca]) (simp add: ca_eq tie)
  then have "(a, ca) \<in> set (takeWhile ?B (most_common n ?c))"
    using takeWhile_take_key [OF b [unfolded most_common_def]] by (simp add: most_common_def)
  then have "a \<in> fst ` set (takeWhile ?B (most_common n ?c))"
    by force
  then show ?thesis
    by (simp add: encountered_before_def takeWhile_map comp_def)
qed

section \<open>value_counts\<close>

lemma dom_value_counts: "dom (value_counts col) = set (dropna col)"
  by (auto simp: value_counts_def dom_def)

text \<open>The counts of a column add up to the number of its cells that are not missing.\<close>

lemma sum_values_value_counts: "sum_values (value_counts col) = length (dropna col)"
proof -
  have "sum_values (value_counts col) = (\<Sum>k\<in>set (dropna col). count_list (dropna col) k)"
    unfolding sum_values_def dom_value_counts by (rule sum.cong) (simp_all add: value_counts_def)
  also have "\<dots> = length (dropna col)"
    by (rule sum_count_set) simp_all
  finally show ?thesis .
qed

lemma dropna_all_present: "None \<notin> set col \<Longrightarrow> length (dropna col) = length col"
  by (induction col rule: dropna.induct) auto

section \<open>The report of a table\<close>

text \<open>
  The keys that most_common returns differ, so \<open>dict\<close> stores them as they come: the
  top_ips of the report are the selection itself.
\<close>

lemma compute_stats_Some:
  "compute_stats (Some df) =
     Some \<lparr> protocol_counts = value_counts (map Protocol df),
            top_ips = most_common 3 (Counter (all_ips df)),
            total_packets = length df,
            avg_packet_size = mean (map Packet_Size df) \<rparr>"
  by (simp add: compute_stats_def dict_distinct distinct_keys_most_common distinct_Counter)

lemma two_rows_report:
  "compute_stats (Some two_rows) =
     Some \<lparr> protocol_counts = [''TCP'' \<mapsto> 1, ''UDP'' \<mapsto> 1],
            top_ips = [(Address ''1.1.1.1'', 2), (Address ''2.2.2.2'', 1), (Address ''3.3.3.3'', 1)],
            total_packets = 2,
            avg_packet_size = Num 150 \<rparr>"
  by (simp add: compute_stats_def two_rows_def all_ips_def Counter_def count_step_def
      most_common_def dict_def dict_get_def mean_def value_counts_def fun_eq_iff)

lemma no_protocol_row_report:
  "compute_stats (Some no_protocol_row) =
     Some \<lparr> protocol_counts = Map.empty,
            top_ips = [(Address ''1.1.1.1'', 1), (Address ''2.2.2.2'', 1)],
            total_packets = 1,
            avg_packet_size = Num 100 \<rparr>"
  by (simp add: compute_stats_def no_protocol_row_def all_ips_def Counter_def count_step_def
      most_common_def dict_def dict_get_def mean_def value_counts_def fun_eq_iff)

lemma self_talk_report:
  "compute_stats (Some self_talk) =
     Some \<lparr> protocol_counts = [''TCP'' \<mapsto> 1],
            top_ips = [(Address ''9.9.9.9'', 2)],
            total_packets = 1,
            avg_packet_size = Num 64 \<rparr>"
  by (simp add: compute_stats_def self_talk_def all_ips_def Counter_def count_step_def
      most_common_def dict_def dict_get_def mean_def value_counts_def fun_eq_iff)

lemma missing_addresses_report:
  "compute_stats (Some missing_addresses) =
     Some \<lparr> protocol_counts = [''TCP'' \<mapsto> 3],
            top_ips = [(Missing 0, 3), (Address ''b'', 2), (Address ''c'', 1)],
            total_packets = 3,
            avg_packet_size = Num 100 \<rparr>"
  by (simp add: compute_stats_def missing_addresses_def all_ips_def Counter_def count_step_def
      most_common_def dict_def dict_get_def mean_def value_counts_def fun_eq_iff)

text \<open>
  The keys of the top entries are values of cells of the two address columns, and there
  are min(3, number of distinct values) of them, whether the values are addresses or not.
\<close>

lemma top_ips_keys_length:
  "fst ` set (most_common 3 (Counter (all_ips df))) \<subseteq> set (all_ips df) \<and>
   length (most_common 3 (Counter (all_ips df))) = min 3 (card (set (all_ips df)))"
proof -
  let ?xs = "all_ips df"
  have "fst ` set (most_common 3 (Counter ?xs)) \<subseteq> fst ` set (Counter ?xs)"
    by (rule image_mono) (rule most_common_subset)
  then have "fst ` set (most_common 3 (Counter ?xs)) \<subseteq> set ?xs"
    by (simp add: keys_Counter)
  moreover have "length (most_common 3 (Counter ?xs)) = min 3 (card (set ?xs))"
    by (simp add: length_most_common length_Counter)
  ultimately show ?thesis by simp
qed

lemma cells_all_addresses:
  "None \<notin> set (map address_of xs) \<Longrightarrow> map Address (dropna (map address_of xs)) = xs"
proof (induction xs)
  case Nil
  then show ?case by simp
next
  case (Cons c xs)
  then show ?case by (cases c) auto
qed

section \<open>Protocol counts and the number of rows\<close>

text \<open>
  C1, as the specification states it: for every loaded table the values of
  protocol_counts add up to total_packets, which is the number of rows. The table
  \<open>no_protocol_row\<close> has one row, whose Protocol cell is missing: \<open>value_counts\<close> drops
  the cell, so the counts add up to 0, while total_packets is 1.
\<close>

theorem protocol_counts_sum_missing_cell:
  "sum_values (protocol_counts (the (compute_stats (Some no_protocol_row)))) = 0 \<and>
   total_packets (the (compute_stats (Some no_protocol_row))) = 1 \<and>
   length no_protocol_row = 1"
  unfolding no_protocol_row_report
  by (simp add: sum_values_def no_protocol_row_def)

text \<open>
  C1, amended: for every loaded table in which no Protocol cell is missing, the values
  of protocol_counts add up to total_packets, and both are the number of rows.
\<close>

theorem protocol_counts_sum_total:
  assumes "None \<notin> set (map Protocol df)"
  shows "\<exists>st. compute_stats (Some df) = Some st \<and>
           sum_values (protocol_counts st) = total_packets st \<and>
           total_packets st = length df"
  using dropna_all_present [OF assms]
  by (simp add: compute_stats_def sum_values_value_counts)

theorem protocol_counts_sum_total_witness:
  "None \<notin> set (map Protocol two_rows) \<and>
   (\<exists>st. compute_stats (Some two_rows) = Some st \<and>
      sum_values (protocol_counts st) = total_packets st \<and>
      total_packets st = length two_rows)"
proof -
  have h: "None \<notin> set (map Protocol two_rows)"
    by (simp add: two_rows_def)
  show ?thesis
    using h protocol_counts_sum_total [OF h] by simp
qed

section \<open>The empty table\<close>

text \<open>
  C2, as the specification states it: for the empty table the average is flagged as
  undefined, and is no NaN passed through. The average of the report is the NaN that
  \<open>mean\<close> returns, as it is.
\<close>

theorem empty_table_average_NaN:
  "avg_packet_size (the (compute_stats (Some []))) = NaN"
  by (simp add: compute_stats_def mean_def)

text \<open>
  C2, amended: for the empty table the aggregator returns total_packets 0, an empty
  protocol-count mapping, an empty top-addresses list, and the NaN of the empty mean as
  the average, with no flag.
\<close>

theorem empty_table_report:
  "compute_stats (Some []) =
     Some \<lparr> protocol_counts = Map.empty, top_ips = [], total_packets = 0,
            avg_packet_size = NaN \<rparr>"
  by (simp add: compute_stats_def all_ips_def Counter_def most_common_def
      dict_def mean_def value_counts_def fun_eq_iff)

section \<open>The failures of the loader\<close>

text \<open>
  C3, as the specification states it: the caller of the loader can tell a file that is
  not there from a file that cannot be parsed. The loader returns the same value in
  both cases.
\<close>

theorem loader_failures_same_value:
  "fst (load_network_data FileNotFoundError quiet) =
   fst (load_network_data (Exception ''Error tokenizing data'') quiet)"
  by (simp add: load_network_data_def)

text \<open>
  C3, amended: the loader returns None for a file that is not there and for a file
  that cannot be parsed alike; the two cases differ only in the line printed to standard
  output, and both handlers answer them with the same response.
\<close>

theorem loader_failures_return_None:
  "fst (load_network_data FileNotFoundError w) = None \<and>
   fst (load_network_data (Exception e) w) = None \<and>
   stdout (snd (load_network_data FileNotFoundError w)) =
     stdout w @ [''Error: network_data.csv file not found!''] \<and>
   stdout (snd (load_network_data (Exception e) w)) =
     stdout w @ [''Error loading CSV: '' @ e] \<and>
   fst (dashboard FileNotFoundError w) = fst (dashboard (Exception e) w) \<and>
   fst (api_stats FileNotFoundError w) = fst (api_stats (Exception e) w)"
  by (simp add: load_network_data_def print_def dashboard_def api_stats_def)

section \<open>The top addresses\<close>

text \<open>
  C4. When two addresses have the same combined count and the first is encountered
  earlier in the combined sequence (the Source IP column, then the Destination IP
  column), the first ranks higher: whenever the second is among the top addresses, the
  first is too, in front of it. The statement is about any two values of cells, so about
  any two addresses \<open>Address s\<close> and \<open>Address t\<close>, in tables with or without missing cells.
\<close>

theorem top_ips_tie_order:
  assumes st: "compute_stats (Some df) = Some st"
    and before: "encountered_before (all_ips df) a b"
    and tie: "count_list (all_ips df) a = count_list (all_ips df) b"
    and b: "b \<in> fst ` set (top_ips st)"
  shows "a \<in> fst ` set (top_ips st) \<and> encountered_before (map fst (top_ips st)) a b"
proof -
  have top: "top_ips st = most_common 3 (Counter (all_ips df))"
    using st by (auto simp: compute_stats_Some)
  have "encountered_before (map fst (top_ips st)) a b"
    unfolding top
    by (rule most_common_keeps_tie_order [OF b [unfolded top] tie before])
  moreover from this have "a \<in> fst ` set (top_ips st)"
    by (auto simp: encountered_before_def dest: set_takeWhileD)
  ultimately show ?thesis by simp
qed

theorem top_ips_tie_order_witness:
  "compute_stats (Some two_rows) = Some (the (compute_stats (Some two_rows))) \<and>
   encountered_before (all_ips two_rows) (Address ''2.2.2.2'') (Address ''3.3.3.3'') \<and>
   count_list (all_ips two_rows) (Address ''2.2.2.2'') =
     count_list (all_ips two_rows) (Address ''3.3.3.3'') \<and>
   Address ''3.3.3.3'' \<in> fst ` set (top_ips (the (compute_stats (Some two_rows)))) \<and>
   Address ''2.2.2.2'' \<in> fst ` set (top_ips (the (compute_stats (Some two_rows)))) \<and>
   encountered_before (map fst (top_ips (the (compute_stats (Some two_rows)))))
     (Address ''2.2.2.2'') (Address ''3.3.3.3'')"
proof -
  have h1: "compute_stats (Some two_rows) = Some (the (compute_stats (Some two_rows)))"
    by (simp add: two_rows_report)
  have h2: "encountered_before (all_ips two_rows) (Address ''2.2.2.2'') (Address ''3.3.3.3'')"
    by (simp add: encountered_before_def all_ips_def two_rows_def)
  have h3: "count_list (all_ips two_rows) (Address ''2.2.2.2'') =
     count_list (all_ips two_rows) (Address ''3.3.3.3'')"
    by (simp add: all_ips_def two_rows_def)
  have h4: "Address ''3.3.3.3'' \<in> fst ` set (top_ips (the (compute_stats (Some two_rows))))"
    by (simp add: two_rows_report)
  show ?thesis
    using h1 h2 h3 h4 top_ips_tie_order [OF h1 h2 h3 h4] by simp
qed

text \<open>
  C5, as the specification states it: every entry of the top addresses is an address
  that occurs in the Source IP or the Destination IP column, and there are min(3, number
  of distinct addresses of the table) entries. In the table \<open>missing_addresses\<close> three
  address cells are missing; the Counter counts the object they yield as a key like any
  other, so the first of the top entries is no address, and there are three entries
  though the table has the two addresses b and c.
\<close>

theorem top_ips_missing_cell_entry:
  "top_ips (the (compute_stats (Some missing_addresses))) =
     [(Missing 0, 3), (Address ''b'', 2), (Address ''c'', 1)] \<and>
   address_of (Missing 0) = None \<and>
   length (top_ips (the (compute_stats (Some missing_addresses)))) = 3 \<and>
   min 3 (card (set (dropna (map address_of (all_ips missing_addresses))))) = 2"
  unfolding missing_addresses_report
  by (simp add: all_ips_def missing_addresses_def)

text \<open>
  C5, amended: for every table in which no Source IP or Destination IP cell is missing,
  every address among the top addresses occurs in the Source IP or the Destination IP
  column, and there are min(3, number of distinct addresses of the table) of them.
\<close>

theorem top_ips_members_length:
  assumes "None \<notin> set (map address_of (all_ips df))"
  shows "\<exists>st. compute_stats (Some df) = Some st \<and>
     fst ` set (top_ips st) \<subseteq> set (map Source_IP df) \<union> set (map Destination_IP df) \<and>
     fst ` set (top_ips st) \<subseteq> Address ` set (dropna (map address_of (all_ips df))) \<and>
     length (top_ips st) = min 3 (card (set (dropna (map address_of (all_ips df)))))"
proof -
  let ?xs = "all_ips df"
  let ?as = "dropna (map address_of ?xs)"
  have cells: "set ?xs = Address ` set ?as"
    using cells_all_addresses [OF assms] by (metis set_map)
  have "card (Address ` set ?as) = card (set ?as)"
    by (rule card_image) (simp add: inj_on_def)
  then have "card (set ?xs) = card (set ?as)"
    by (simp only: cells)
  moreover have "set ?xs = set (map Source_IP df) \<union> set (map Destination_IP df)"
    by (simp add: all_ips_def)
  moreover note top_ips_keys_length [of df] cells
  ultimately show ?thesis
    by (simp add: compute_stats_Some)
qed

theorem top_ips_members_length_witness:
  "None \<notin> set (map address_of (all_ips two_rows)) \<and>
   (\<exists>st. compute_stats (Some two_rows) = Some st \<and>
      fst ` set (top_ips st) \<subseteq>
        set (map Source_IP two_rows) \<union> set (map Destination_IP two_rows) \<and>
      fst ` set (top_ips st) \<subseteq> Address ` set (dropna (map address_of (all_ips two_rows))) \<and>
      length (top_ips st) = min 3 (card (set (dropna (map address_of (all_ips two_rows))))))"
proof -
  have h: "None \<notin> set (map address_of (all_ips two_rows))"
    by (simp add: all_ips_def two_rows_def)
  show ?thesis
    using h top_ips_members_length [OF h] by simp
qed

text \<open>
  C9. The count by which the addresses are ranked is, for every address, the number of
  its occurrences in the Source IP column plus the number of its occurrences in the
  Destination IP column: this is the count the Counter holds for the address, the count
  each top address is reported with, and the top addresses stand in descending order of
  it. A single row from an address to itself gives that address the count 2. The
  statement is about every value \<open>a\<close> of a cell, so about every address \<open>Address s\<close>, in
  tables with or without missing cells.
\<close>

theorem combined_occurrence_count:
  "\<exists>st. compute_stats (Some df) = Some st \<and>
     (\<forall>a. dict_get (Counter (all_ips df)) a 0 =
        count_list (map Source_IP df) a + count_list (map Destination_IP df) a) \<and>
     map snd (top_ips st) =
       map (\<lambda>a. count_list (map Source_IP df) a + count_list (map Destination_IP df) a)
         (map fst (top_ips st)) \<and>
     sorted_wrt (\<ge>) (map snd (top_ips st)) \<and>
     top_ips (the (compute_stats (Some self_talk))) = [(Address ''9.9.9.9'', 2)]"
proof -
  have cnt: "count_list (all_ips df) =
      (\<lambda>a. count_list (map Source_IP df) a + count_list (map Destination_IP df) a)"
    by (simp add: all_ips_def fun_eq_iff)
  have "map snd (most_common 3 (Counter (all_ips df))) =
      map (count_list (all_ips df)) (map fst (most_common 3 (Counter (all_ips df))))"
    by (rule most_common_counts)
  moreover have "sorted_wrt (\<ge>) (map snd (most_common 3 (Counter (all_ips df))))"
    by (rule most_common_descending)
  moreover have "\<forall>a. dict_get (Counter (all_ips df)) a 0 = count_list (all_ips df) a"
    by (simp add: dict_get_Counter)
  moreover have "top_ips (the (compute_stats (Some self_talk))) = [(Address ''9.9.9.9'', 2)]"
    by (simp add: self_talk_report)
  ultimately show ?thesis
    unfolding cnt by (simp add: compute_stats_Some)
qed

section \<open>The two-row table\<close>

text \<open>
  C8. For the table [(TCP, 1.1.1.1, 2.2.2.2, 100), (UDP, 1.1.1.1, 3.3.3.3, 200)] the
  aggregator returns the protocol counts {TCP: 1, UDP: 1}, total_packets 2, the average
  150 (the sum 300 and its half are exact in floating point too), and top addresses that
  begin with 1.1.1.1 at the count 2.
\<close>

theorem two_rows_stats:
  "\<exists>st rest. compute_stats (Some two_rows) = Some st \<and>
     protocol_counts st = [''TCP'' \<mapsto> 1, ''UDP'' \<mapsto> 1] \<and>
     total_packets st = 2 \<and>
     avg_packet_size st = Num 150 \<and>
     top_ips st = (Address ''1.1.1.1'', 2) # rest"
  by (simp add: compute_stats_def two_rows_def all_ips_def Counter_def count_step_def
      most_common_def dict_def dict_get_def mean_def value_counts_def fun_eq_iff)

section \<open>The aggregator and the world\<close>

text \<open>
  C6. compute_stats takes the table and nothing else, and returns the report and
  nothing else: it prints no line and saves no figure. In the handlers, where the world
  is threaded through the loader, the aggregator and the chart functions, the report of
  a request on a loaded table is compute_stats of the table whatever the world before
  the request; the JSON handler leaves the world as it was; and a second request on the
  same table, served in the world that the first has left, gives the same response.
\<close>

theorem report_independent_of_world:
  "fst (api_stats (Frame df) w) = Jsonify (compute_stats (Some df)) \<and>
   snd (api_stats (Frame df) w) = w \<and>
   fst (api_stats (Frame df) w') = fst (api_stats (Frame df) w) \<and>
   fst (dashboard (Frame df) w') = fst (dashboard (Frame df) w) \<and>
   fst (dashboard (Frame df) (snd (dashboard (Frame df) w))) = fst (dashboard (Frame df) w)"
  by (simp add: api_stats_def dashboard_def load_network_data_def compute_stats_Some
      create_protocol_chart_def create_ip_chart_def)

section \<open>A request when the file is not there\<close>

text \<open>
  C7. When the input file does not exist, the loader returns None, its failure value,
  after printing its message; the dashboard handler answers with the error template and
  the one designated message, the JSON handler with the one error field; neither saves
  a figure, and no part of the dashboard is rendered.
\<close>

theorem missing_file_error_only:
  "load_network_data FileNotFoundError w =
     (None, print ''Error: network_data.csv file not found!'' w) \<and>
   fst (dashboard FileNotFoundError w) =
     Render_error_html
       ''Could not load network_data.csv file. Please make sure it exists in the project directory.'' \<and>
   fst (api_stats FileNotFoundError w) = Jsonify_error ''Could not load data'' \<and>
   saved_figures (snd (dashboard FileNotFoundError w)) = saved_figures w \<and>
   saved_figures (snd (api_stats FileNotFoundError w)) = saved_figures w"
  by (simp add: load_network_data_def dashboard_def api_stats_def print_def)

section \<open>The absent table\<close>

text \<open>
  C10. Applied to None, the loader's failure value, the aggregator returns None: no
  statistics record, and no error.
\<close>

theorem compute_stats_None: "compute_stats None = None"
  by (simp add: compute_stats_def)

end
